theory Spec2Isabelle
  imports Main "HOL-Library.Word"
begin

section \<open>JavaScript strings and objects\<close>

text \<open>
  The component \<^verbatim>\<open>NFCHandler\<close> (file \<^verbatim>\<open>src/app/(tabs)/wallet/NFCHandler.tsx\<close>) handles
  card objects that it reads from the document store and serialises with
  \<^verbatim>\<open>JSON.stringify\<close>. A JavaScript string is a sequence of 16-bit code units; an object is its
  list of own enumerable properties in enumeration order. Every field of \<^verbatim>\<open>CardData\<close> is a
  string, so property values are strings.
\<close>

type_synonym code_unit = "16 word"

type_synonym jsstring = "code_unit list"

type_synonym js_object = "(jsstring \<times> jsstring) list"

definition js :: "string \<Rightarrow> jsstring" where
  \<comment> \<open>an ASCII literal of the source as a JavaScript string\<close>
  "js s = map of_char s"

definition obj_get :: "js_object \<Rightarrow> jsstring \<Rightarrow> jsstring option" where
  \<comment> \<open>property read \<^verbatim>\<open>obj[k]\<close>; \<open>None\<close> is \<^verbatim>\<open>undefined\<close>\<close>
  "obj_get obj k = map_of obj k"

fun obj_put :: "js_object \<Rightarrow> jsstring \<Rightarrow> jsstring \<Rightarrow> js_object" where
  \<comment> \<open>defining property \<open>k\<close>: an existing property keeps its place and takes the new value,
      a new property goes last\<close>
  "obj_put [] k v = [(k, v)]"
| "obj_put ((k', v') # ps) k v =
     (if k' = k then (k, v) # ps else (k', v') # obj_put ps k v)"

definition obj_wf :: "js_object \<Rightarrow> bool" where
  \<comment> \<open>an object has each property name once\<close>
  "obj_wf obj = distinct (map fst obj)"

section \<open>The card type\<close>

text \<open>
  \<^verbatim>\<open>
  interface CardData {
    id: string;
    firstName: string;
    lastName: string;
    type: 'Student' | 'Work' | 'Personal';
    phone: string;
    workNumber?: string;
  }
  \<close>
  The interface is erased when the program runs: a card is an object, and \<open>asCard\<close> is the
  typed reading of an object that the interface describes.
\<close>

datatype card_type = Student | Work | Personal

record CardData =
  id' :: jsstring
  firstName :: jsstring
  lastName :: jsstring
  type :: card_type
  phone :: jsstring
  workNumber :: "jsstring option"

definition card_type_name :: "card_type \<Rightarrow> jsstring" where
  "card_type_name t =
     (case t of Student \<Rightarrow> js ''Student'' | Work \<Rightarrow> js ''Work'' | Personal \<Rightarrow> js ''Personal'')"

definition card_type_of :: "jsstring \<Rightarrow> card_type option" where
  "card_type_of t =
     (if t = js ''Student'' then Some Student
      else if t = js ''Work'' then Some Work
      else if t = js ''Personal'' then Some Personal
      else None)"

definition asCard :: "js_object \<Rightarrow> CardData option" where
  "asCard obj =
     (case obj_get obj (js ''id'') of None \<Rightarrow> None | Some i \<Rightarrow>
     (case obj_get obj (js ''firstName'') of None \<Rightarrow> None | Some f \<Rightarrow>
     (case obj_get obj (js ''lastName'') of None \<Rightarrow> None | Some l \<Rightarrow>
     (case obj_get obj (js ''type'') of None \<Rightarrow> None | Some t \<Rightarrow>
     (case card_type_of t of None \<Rightarrow> None | Some ty \<Rightarrow>
     (case obj_get obj (js ''phone'') of None \<Rightarrow> None | Some p \<Rightarrow>
        Some \<lparr>id' = i, firstName = f, lastName = l, type = ty, phone = p,
              workNumber = obj_get obj (js ''workNumber'')\<rparr>))))))"

definition cardObject :: "CardData \<Rightarrow> js_object" where
  \<comment> \<open>the object literal of a card, properties in the order of the interface\<close>
  "cardObject c =
     [(js ''id'', id' c), (js ''firstName'', firstName c), (js ''lastName'', lastName c),
      (js ''type'', card_type_name (type c)), (js ''phone'', phone c)]
     @ (case workNumber c of None \<Rightarrow> [] | Some w \<Rightarrow> [(js ''workNumber'', w)])"

section \<open>JSON.stringify on a card object\<close>

text \<open>
  \<^verbatim>\<open>JSON.stringify(selectedCard)\<close> (line 73) is the language's own function. On an object whose
  properties are strings it writes \<^verbatim>\<open>{"k1":"v1","k2":"v2"}\<close> with no white space, each name
  and value quoted by \<^verbatim>\<open>QuoteJSONString\<close> of ECMA-262: the characters backspace, tab, line
  feed, form feed, carriage return, the double quote and the backslash take their two-character
  escapes; any other code unit below U+0020 and any surrogate that is not part of a pair is
  written as \<^verbatim>\<open>\uXXXX\<close> with lower-case hexadecimal digits; a leading surrogate directly
  followed by a trailing one is copied as the pair; everything else is copied.
\<close>

definition is_leading :: "code_unit \<Rightarrow> bool" where
  "is_leading c = (0xD800 \<le> c \<and> c \<le> 0xDBFF)"

definition is_trailing :: "code_unit \<Rightarrow> bool" where
  "is_trailing c = (0xDC00 \<le> c \<and> c \<le> 0xDFFF)"

definition hexdigit :: "nat \<Rightarrow> code_unit" where
  \<comment> \<open>\<^verbatim>\<open>0\<close>..\<^verbatim>\<open>9\<close> are 48..57, \<^verbatim>\<open>a\<close>..\<^verbatim>\<open>f\<close> are 97..102\<close>
  "hexdigit n = (if n < 10 then of_nat (48 + n) else of_nat (87 + n))"

definition UnicodeEscape :: "code_unit \<Rightarrow> jsstring" where
  \<comment> \<open>backslash, \<^verbatim>\<open>u\<close>, four hexadecimal digits\<close>
  "UnicodeEscape c =
     [0x5C, 0x75, hexdigit (unat c div 4096), hexdigit (unat c div 256 mod 16),
      hexdigit (unat c div 16 mod 16), hexdigit (unat c mod 16)]"

definition quote_unit :: "code_unit \<Rightarrow> jsstring" where
  \<comment> \<open>one code point that is a single code unit\<close>
  "quote_unit c =
     (if c = 0x08 then [0x5C, 0x62]
      else if c = 0x09 then [0x5C, 0x74]
      else if c = 0x0A then [0x5C, 0x6E]
      else if c = 0x0C then [0x5C, 0x66]
      else if c = 0x0D then [0x5C, 0x72]
      else if c = 0x22 then [0x5C, 0x22]
      else if c = 0x5C then [0x5C, 0x5C]
      else if c < 0x20 \<or> is_leading c \<or> is_trailing c then UnicodeEscape c
      else [c])"

fun quote_units :: "jsstring \<Rightarrow> jsstring" where
  "quote_units [] = []"
| "quote_units [c] = quote_unit c"
| "quote_units (c # d # cs) =
     (if is_leading c \<and> is_trailing d then c # d # quote_units cs
      else quote_unit c @ quote_units (d # cs))"

definition QuoteJSONString :: "jsstring \<Rightarrow> jsstring" where
  "QuoteJSONString s = 0x22 # quote_units s @ [0x22]"

fun json_members :: "js_object \<Rightarrow> jsstring" where
  \<comment> \<open>\<^verbatim>\<open>"name":"value"\<close> for each property, separated by commas\<close>
  "json_members [] = []"
| "json_members [(k, v)] = QuoteJSONString k @ 0x3A # QuoteJSONString v"
| "json_members ((k, v) # p # ps) =
     QuoteJSONString k @ 0x3A # QuoteJSONString v @ 0x2C # json_members (p # ps)"

definition JSON_stringify :: "js_object \<Rightarrow> jsstring" where
  "JSON_stringify obj = 0x7B # json_members obj @ [0x7D]"

section \<open>The inverse parser\<close>

text \<open>
  Modelled from the spec: the receiving side, which \<open>is expected to parse that same
  representation back into a Card\<close>, is not part of this repository. \<open>decodeCard\<close> reads the
  compact JSON text of an object with string properties, as \<^verbatim>\<open>JSON.parse\<close> does (every
  escape of the JSON grammar is accepted, a raw control character is refused, a repeated name
  keeps its first place and takes the last value), and reads the result as a \<open>CardData\<close>.
\<close>

definition hexval :: "code_unit \<Rightarrow> nat option" where
  "hexval c =
     (if 0x30 \<le> c \<and> c \<le> 0x39 then Some (unat c - 48)
      else if 0x61 \<le> c \<and> c \<le> 0x66 then Some (unat c - 87)
      else if 0x41 \<le> c \<and> c \<le> 0x46 then Some (unat c - 55)
      else None)"

definition hex4 ::
  "code_unit \<Rightarrow> code_unit \<Rightarrow> code_unit \<Rightarrow> code_unit \<Rightarrow> code_unit option" where
  "hex4 a b c d =
     (case (hexval a, hexval b, hexval c, hexval d) of
        (Some p, Some q, Some r, Some s) \<Rightarrow> Some (of_nat (4096 * p + 256 * q + 16 * r + s))
      | _ \<Rightarrow> None)"

definition simple_escape :: "code_unit \<Rightarrow> code_unit option" where
  \<comment> \<open>the character after a backslash: quote, backslash, slash, b, f, n, r, t\<close>
  "simple_escape e =
     (if e = 0x22 then Some 0x22
      else if e = 0x5C then Some 0x5C
      else if e = 0x2F then Some 0x2F
      else if e = 0x62 then Some 0x08
      else if e = 0x66 then Some 0x0C
      else if e = 0x6E then Some 0x0A
      else if e = 0x72 then Some 0x0D
      else if e = 0x74 then Some 0x09
      else None)"

definition consume ::
  "code_unit \<Rightarrow> (jsstring \<times> jsstring) option \<Rightarrow> (jsstring \<times> jsstring) option" where
  "consume c r = (case r of None \<Rightarrow> None | Some (s, rest) \<Rightarrow> Some (c # s, rest))"

fun string_body :: "jsstring \<Rightarrow> (jsstring \<times> jsstring) option" where
  \<comment> \<open>the text after an opening quote: the string read and the text after its closing quote\<close>
  "string_body [] = None"
| "string_body (c # cs) =
     (if c = 0x22 then Some ([], cs)
      else if c = 0x5C then
        (case cs of
           [] \<Rightarrow> None
         | e # r \<Rightarrow>
             if e = 0x75 then
               (case r of
                  h1 # h2 # h3 # h4 # r' \<Rightarrow>
                    (case hex4 h1 h2 h3 h4 of
                       None \<Rightarrow> None
                     | Some u \<Rightarrow> consume u (string_body r'))
                | _ \<Rightarrow> None)
             else
               (case simple_escape e of
                  None \<Rightarrow> None
                | Some u \<Rightarrow> consume u (string_body r)))
      else if c < 0x20 then None
      else consume c (string_body cs))"

definition parse_string :: "jsstring \<Rightarrow> (jsstring \<times> jsstring) option" where
  "parse_string t =
     (case t of [] \<Rightarrow> None | c # cs \<Rightarrow> if c = 0x22 then string_body cs else None)"

definition parse_member :: "jsstring \<Rightarrow> ((jsstring \<times> jsstring) \<times> jsstring) option" where
  \<comment> \<open>\<^verbatim>\<open>"name":"value"\<close>\<close>
  "parse_member t =
     (case parse_string t of
        None \<Rightarrow> None
      | Some (k, r1) \<Rightarrow>
          (case r1 of
             [] \<Rightarrow> None
           | c # r2 \<Rightarrow>
               if c = 0x3A then
                 (case parse_string r2 of None \<Rightarrow> None | Some (v, r3) \<Rightarrow> Some ((k, v), r3))
               else None))"

function parse_members :: "jsstring \<Rightarrow> (js_object \<times> jsstring) option" where
  \<comment> \<open>one or more members up to the closing brace; the text after the brace is returned\<close>
  "parse_members t =
     (case parse_member t of
        None \<Rightarrow> None
      | Some (kv, r) \<Rightarrow>
          (case r of
             [] \<Rightarrow> None
           | c # r' \<Rightarrow>
               if c = 0x7D then Some ([kv], r')
               else if c = 0x2C then
                 (case parse_members r' of
                    None \<Rightarrow> None
                  | Some (ps, r'') \<Rightarrow> Some (kv # ps, r''))
               else None))"
  by pat_completeness auto
termination
proof (relation "measure length")
  show "wf (measure length)"
    by simp
next
  fix t :: jsstring and x2 kv r c r'
  assume m: "parse_member t = Some x2" and x2: "(kv, r) = x2" and r: "r = c # r'"
  have body: "length rest < length u" if "string_body u = Some (s, rest)" for u s rest
    using that
  proof (induction u arbitrary: s rest rule: length_induct)
    case (1 u)
    have ih: "length rest' < length v"
      if "string_body v = Some (s', rest')" "length v < length u" for v s' rest'
      using 1(1) that by blast
    show ?case
    proof (cases u)
      case Nil
      with 1(2) show ?thesis by simp
    next
      case (Cons a as)
      with 1(2) show ?thesis
        by (auto simp: consume_def split: if_splits list.splits option.splits prod.splits
                 dest!: ih)
    qed
  qed
  have str: "length rest < length u" if "parse_string u = Some (s, rest)" for u s rest
    using that by (auto simp: parse_string_def split: list.splits if_splits dest: body)
  have "length r < length t"
    using m x2 
    by (fastforce simp: parse_member_def split: option.splits list.splits if_splits
                dest: str)
  then show "(r', t) \<in> measure length"
    using r by simp
qed

definition parse_object :: "jsstring \<Rightarrow> js_object option" where
  "parse_object t =
     (case t of
        [] \<Rightarrow> None
      | c # r \<Rightarrow>
          if c = 0x7B then
            (case r of
               [] \<Rightarrow> None
             | d # r' \<Rightarrow>
                 if d = 0x7D then (if r' = [] then Some [] else None)
                 else
                   (case parse_members r of
                      None \<Rightarrow> None
                    | Some (ps, rest) \<Rightarrow>
                        if rest = [] then Some (fold (\<lambda>(k, v) obj. obj_put obj k v) ps [])
                        else None))
          else None)"

text \<open>
  Modelled from the spec: the inverse parser of the receiving side, from the received text to
  a Card.
\<close>

definition decodeCard :: "jsstring \<Rightarrow> CardData option" where
  "decodeCard t = (case parse_object t of None \<Rightarrow> None | Some obj \<Rightarrow> asCard obj)"

section \<open>The collaborators of the component\<close>

text \<open>
  The component calls the document store (\<^verbatim>\<open>auth.currentUser\<close>, \<^verbatim>\<open>getDocs\<close>), the radio
  library (\<^verbatim>\<open>NfcManager\<close>, \<^verbatim>\<open>Ndef\<close>), \<^verbatim>\<open>Alert.alert\<close>, the console and the two callbacks of
  its host. None of them is in the repository. What a call answers is taken from an environment
  \<open>env\<close>: a thrown value or rejected promise is \<open>Inl\<close>, a result is \<open>Inr\<close>. Every call that
  the component makes is recorded, in order, as an \<open>event\<close>.
\<close>

datatype exn = Exn string

type_synonym byte = "8 word"

datatype ndef_record = textRecord jsstring
  \<comment> \<open>\<^verbatim>\<open>Ndef.textRecord(text)\<close>: a text record and its content\<close>

datatype tag = Tag "byte list"

record snapshot_doc =
  doc_id :: jsstring
  doc_data :: js_object

record env =
  currentUser :: "jsstring option"
    \<comment> \<open>\<^verbatim>\<open>auth.currentUser\<close>: the \<^verbatim>\<open>uid\<close> of the signed-in user, or \<^verbatim>\<open>null\<close>\<close>
  getDocs :: "jsstring list \<Rightarrow> exn + snapshot_doc list"
    \<comment> \<open>the documents of the collection at a path\<close>
  nfc_start :: "exn + unit"
  nfc_requestTechnology :: "exn + unit"
  nfc_getTag :: "exn + tag option"
  ndef_encodeMessage :: "ndef_record list \<Rightarrow> exn + byte list option"
    \<comment> \<open>\<open>Inr None\<close> is a falsy result\<close>
  nfc_transceive :: "byte list \<Rightarrow> exn + unit"

datatype event =
    GetDocs "jsstring list"
  | NfcStart
  | NfcRequestTechnology
  | NfcGetTag
  | NdefEncodeMessage "ndef_record list"
  | NfcTransceive "byte list"
  | NfcCancelTechnologyRequest
  | Alert string string
  | ConsoleWarn exn
  | ConsoleError string exn
  | OnCardSelected js_object
  | OnClose

datatype outcome = Fulfilled | Rejected exn
  \<comment> \<open>how the promise of an \<^verbatim>\<open>async\<close> function settles\<close>

section \<open>The component\<close>

text \<open>
  \<^verbatim>\<open>
  const [cards, setCards] = useState<CardData[]>([]);
  const [selectedCard, setSelectedCard] = useState<CardData | null>(null);
  \<close>
\<close>

text \<open>
  Modelled from the spec: the radio session, which the library holds and the component cannot
  read, is the third field \<open>session\<close>. The spec's controller is \<open>Idle\<close> when no session is
  held; the session is acquired when \<^verbatim>\<open>requestTechnology\<close> succeeds and released by
  \<^verbatim>\<open>cancelTechnologyRequest\<close>. The spec describes that call as idempotent and safe to invoke
  even if no session is active, so it has no failing answer in \<open>env\<close>. A handler runs from
  its first call to its last without another handler in between.
\<close>

record handler_state =
  cards :: "js_object list"
  selectedCard :: "js_object option"
  session :: bool

definition initial_state :: handler_state where
  "initial_state = \<lparr>cards = [], selectedCard = None, session = False\<rparr>"

definition idle :: "handler_state \<Rightarrow> bool" where
  "idle s = (\<not> session s)"

type_synonym run = "handler_state \<times> event list \<times> outcome"

definition state_of :: "run \<Rightarrow> handler_state" where
  "state_of r = fst r"

definition events_of :: "run \<Rightarrow> event list" where
  "events_of r = fst (snd r)"

definition outcome_of :: "run \<Rightarrow> outcome" where
  "outcome_of r = snd (snd r)"

text \<open>
  \<^verbatim>\<open>
  const fetchCards = async () => {
    const user = auth.currentUser;
    if (user) {
      const userWalletRef = doc(db, 'wallets', user.uid);
      const cardsRef = collection(userWalletRef, 'cards');
      const cardsSnapshot = await getDocs(cardsRef);
      const userCards = cardsSnapshot.docs.map((doc) => ({
        ...doc.data() as CardData, id: doc.id
      }));
      setCards(userCards);
    }
  };
  \<close>
\<close>

definition cardOfDoc :: "snapshot_doc \<Rightarrow> js_object" where
  \<comment> \<open>\<^verbatim>\<open>{...doc.data(), id: doc.id}\<close>\<close>
  "cardOfDoc d = obj_put (doc_data d) (js ''id'') (doc_id d)"

definition fetchCards :: "env \<Rightarrow> handler_state \<Rightarrow> run" where
  "fetchCards e s =
     (case currentUser e of
        None \<Rightarrow> (s, [], Fulfilled)
      | Some uid \<Rightarrow>
          (let cardsRef = [js ''wallets'', uid, js ''cards''] in
           case getDocs e cardsRef of
             Inl err \<Rightarrow> (s, [GetDocs cardsRef], Rejected err)
           | Inr docs \<Rightarrow> (s\<lparr>cards := map cardOfDoc docs\<rparr>, [GetDocs cardsRef], Fulfilled)))"

text \<open>
  \<^verbatim>\<open>
  const startNFC = async () => {
    try {
      await NfcManager.start();
      await NfcManager.requestTechnology(NfcTech.Ndef);
      const tag = await NfcManager.getTag();
      if (tag) {
        Alert.alert('NFC Detected', 'Another phone is nearby. Choose a card to share.');
      }
    } catch (ex) {
      console.warn(ex);
      Alert.alert('Error', 'NFC failed');
    }
  };
  \<close>
\<close>

definition startNFC :: "env \<Rightarrow> handler_state \<Rightarrow> run" where
  "startNFC e s =
     (case nfc_start e of
        Inl ex \<Rightarrow> (s, [NfcStart, ConsoleWarn ex, Alert ''Error'' ''NFC failed''], Fulfilled)
      | Inr _ \<Rightarrow>
          (case nfc_requestTechnology e of
             Inl ex \<Rightarrow>
               (s, [NfcStart, NfcRequestTechnology, ConsoleWarn ex, Alert ''Error'' ''NFC failed''],
                Fulfilled)
           | Inr _ \<Rightarrow>
               (case nfc_getTag e of
                  Inl ex \<Rightarrow>
                    (s\<lparr>session := True\<rparr>,
                     [NfcStart, NfcRequestTechnology, NfcGetTag, ConsoleWarn ex,
                      Alert ''Error'' ''NFC failed''],
                     Fulfilled)
                | Inr None \<Rightarrow>
                    (s\<lparr>session := True\<rparr>, [NfcStart, NfcRequestTechnology, NfcGetTag], Fulfilled)
                | Inr (Some t) \<Rightarrow>
                    (s\<lparr>session := True\<rparr>,
                     [NfcStart, NfcRequestTechnology, NfcGetTag,
                      Alert ''NFC Detected'' ''Another phone is nearby. Choose a card to share.''],
                     Fulfilled))))"

text \<open>
  \<^verbatim>\<open>
  const stopNFC = async () => {
    await NfcManager.cancelTechnologyRequest();
  };
  \<close>
  The function has no \<^verbatim>\<open>try\<close>: it settles as the library call does.
\<close>

definition stopNFC :: "handler_state \<Rightarrow> run" where
  "stopNFC s = (s\<lparr>session := False\<rparr>, [NfcCancelTechnologyRequest], Fulfilled)"

text \<open>
  \<^verbatim>\<open>
  useEffect(() => {
    if (visible) { startNFC(); } else { stopNFC(); }
  }, [visible]);
  \<close>
\<close>

definition visibleEffect :: "env \<Rightarrow> handler_state \<Rightarrow> bool \<Rightarrow> run" where
  "visibleEffect e s visible = (if visible then startNFC e s else stopNFC s)"

text \<open>
  \<^verbatim>\<open>
  const writeNfcTag = async (selectedCard: CardData) => {
    try {
      const message = [
        Ndef.textRecord(JSON.stringify(selectedCard)),
      ];
      const bytes = Ndef.encodeMessage(message);
      if (bytes) {
        // Write the NDEF message using transceive
        await NfcManager.transceive(bytes);
        Alert.alert('Success', 'Card information has been written to the NFC tag.');
      } else {
        Alert.alert('Error', 'Failed to encode the NDEF message.');
      }
    } catch (error) {
      console.error('Error writing NFC tag:', error);
      Alert.alert('Error', 'Failed to write the NFC tag.');
    } finally {
      NfcManager.cancelTechnologyRequest();
    }
  };
  \<close>
  \<open>write_try\<close> is the \<^verbatim>\<open>try\<close> block: its events and the value it throws, if any.
\<close>

definition ndefMessage :: "js_object \<Rightarrow> ndef_record list" where
  "ndefMessage selected = [textRecord (JSON_stringify selected)]"

definition write_try :: "env \<Rightarrow> js_object \<Rightarrow> event list \<times> exn option" where
  "write_try e selected =
     (let message = ndefMessage selected in
      case ndef_encodeMessage e message of
        Inl error \<Rightarrow> ([NdefEncodeMessage message], Some error)
      | Inr None \<Rightarrow>
          ([NdefEncodeMessage message, Alert ''Error'' ''Failed to encode the NDEF message.''],
           None)
      | Inr (Some bytes) \<Rightarrow>
          (case nfc_transceive e bytes of
             Inl error \<Rightarrow> ([NdefEncodeMessage message, NfcTransceive bytes], Some error)
           | Inr _ \<Rightarrow>
               ([NdefEncodeMessage message, NfcTransceive bytes,
                 Alert ''Success'' ''Card information has been written to the NFC tag.''],
                None)))"

definition writeNfcTag :: "env \<Rightarrow> handler_state \<Rightarrow> js_object \<Rightarrow> run" where
  "writeNfcTag e s selected =
     (let (tried, thrown) = write_try e selected;
          caught =
            (case thrown of
               None \<Rightarrow> []
             | Some error \<Rightarrow>
                 [ConsoleError ''Error writing NFC tag:'' error,
                  Alert ''Error'' ''Failed to write the NFC tag.''])
      in (s\<lparr>session := False\<rparr>, tried @ caught @ [NfcCancelTechnologyRequest], Fulfilled))"

text \<open>
  \<^verbatim>\<open>
  const handleCardSelection = (card: CardData) => {
    setSelectedCard(card);
  };
  \<close>
\<close>

definition handleCardSelection :: "handler_state \<Rightarrow> js_object \<Rightarrow> handler_state \<times> event list" where
  "handleCardSelection s card' = (s\<lparr>selectedCard := Some card'\<rparr>, [])"

text \<open>
  \<^verbatim>\<open>
  const handleShare = async () => {
    if (selectedCard) {
      await writeNfcTag(selectedCard);
      onCardSelected(selectedCard);
      onClose();
    } else {
      Alert.alert('Error', 'Please select a card to share.');
    }
  };
  \<close>
\<close>

definition handleShare :: "env \<Rightarrow> handler_state \<Rightarrow> run" where
  "handleShare e s =
     (case selectedCard s of
        Some selected \<Rightarrow>
          (case writeNfcTag e s selected of
             (s', evs, Rejected err) \<Rightarrow> (s', evs, Rejected err)
           | (s', evs, Fulfilled) \<Rightarrow> (s', evs @ [OnCardSelected selected, OnClose], Fulfilled))
      | None \<Rightarrow> (s, [Alert ''Error'' ''Please select a card to share.''], Fulfilled))"

text \<open>
  What the user and the host can do to the mounted component: the two effects run, a card of
  the list is pressed (\<^verbatim>\<open>onPress={() => handleCardSelection(item)}\<close>), the share button is
  pressed (\<^verbatim>\<open>onPress={handleShare}\<close>), the cancel button is pressed or the modal asks to be
  closed (\<^verbatim>\<open>onPress={onClose}\<close>, \<^verbatim>\<open>onRequestClose={onClose}\<close>).
\<close>

datatype action =
    FetchEffect
  | VisibleEffect bool
  | PressCard js_object
  | PressShare
  | PressCancel

definition step :: "env \<Rightarrow> handler_state \<Rightarrow> action \<Rightarrow> run" where
  "step e s a =
     (case a of
        FetchEffect \<Rightarrow> fetchCards e s
      | VisibleEffect visible \<Rightarrow> visibleEffect e s visible
      | PressCard item \<Rightarrow>
          (fst (handleCardSelection s item), snd (handleCardSelection s item), Fulfilled)
      | PressShare \<Rightarrow> handleShare e s
      | PressCancel \<Rightarrow> (s, [OnClose], Fulfilled))"

fun is_write_event :: "event \<Rightarrow> bool" where
  \<comment> \<open>the calls of the write path: encoding the message and transmitting it\<close>
  "is_write_event (NdefEncodeMessage m) = True"
| "is_write_event (NfcTransceive b) = True"
| "is_write_event _ = False"

fun is_session_event :: "event \<Rightarrow> bool" where
  \<comment> \<open>the calls into the radio library\<close>
  "is_session_event NfcStart = True"
| "is_session_event NfcRequestTechnology = True"
| "is_session_event NfcGetTag = True"
| "is_session_event (NdefEncodeMessage m) = True"
| "is_session_event (NfcTransceive b) = True"
| "is_session_event NfcCancelTechnologyRequest = True"
| "is_session_event _ = False"

fun is_alert :: "event \<Rightarrow> bool" where
  "is_alert (Alert title message) = True"
| "is_alert _ = False"

fun is_host_event :: "event \<Rightarrow> bool" where
  \<comment> \<open>the callbacks of the host\<close>
  "is_host_event (OnCardSelected c) = True"
| "is_host_event OnClose = True"
| "is_host_event _ = False"

section \<open>Example values\<close>

definition ann :: js_object where
  "ann = [(js ''id'', js ''1''), (js ''firstName'', js ''Ann''), (js ''lastName'', js ''Lee''),
          (js ''type'', js ''Work''), (js ''phone'', js ''555-1'')]"

definition ann_card :: CardData where
  "ann_card = \<lparr>id' = js ''1'', firstName = js ''Ann'', lastName = js ''Lee'', type = Work,
               phone = js ''555-1'', workNumber = None\<rparr>"

definition env_ok :: env where
  \<comment> \<open>nobody signed in; every radio call succeeds, the encoder answers three bytes\<close>
  "env_ok = \<lparr>currentUser = None, getDocs = (\<lambda>p. Inr []), nfc_start = Inr (),
             nfc_requestTechnology = Inr (), nfc_getTag = Inr None,
             ndef_encodeMessage = (\<lambda>m. Inr (Some [0xD1, 0x01, 0x00])),
             nfc_transceive = (\<lambda>b. Inr ())\<rparr>"

definition env_write_fails :: env where
  \<comment> \<open>as \<open>env_ok\<close>, but \<^verbatim>\<open>transceive\<close> rejects\<close>
  "env_write_fails = env_ok\<lparr>nfc_transceive := (\<lambda>b. Inl (Exn ''transceive fail''))\<rparr>"

definition env_encode_fails :: env where
  \<comment> \<open>as \<open>env_ok\<close>, but the encoder answers nothing\<close>
  "env_encode_fails = env_ok\<lparr>ndef_encodeMessage := (\<lambda>m. Inr None)\<rparr>"

definition ann_doc :: snapshot_doc where
  \<comment> \<open>a document whose data has an \<^verbatim>\<open>id\<close> field of its own\<close>
  "ann_doc = \<lparr>doc_id = js ''k1'', doc_data = ann\<rparr>"

definition bob_doc :: snapshot_doc where
  \<comment> \<open>a document whose data has no \<^verbatim>\<open>id\<close> field\<close>
  "bob_doc = \<lparr>doc_id = js ''k2'',
               doc_data = [(js ''firstName'', js ''Bob''), (js ''lastName'', js ''Ray''),
                           (js ''type'', js ''Student''), (js ''phone'', js ''555-2'')]\<rparr>"

definition env_user :: env where
  \<comment> \<open>user \<^verbatim>\<open>u1\<close> is signed in and has the two documents\<close>
  "env_user = env_ok\<lparr>currentUser := Some (js ''u1''), getDocs := (\<lambda>p. Inr [ann_doc, bob_doc])\<rparr>"

section \<open>Quoting and reading a string\<close>

lemma unat_hexdigit: "n < 16 \<Longrightarrow> unat (hexdigit n) = (if n < 10 then 48 + n else 87 + n)"
  unfolding hexdigit_def by (simp only: unat_of_nat split: if_split) simp

lemma hexval_hexdigit: "n < 16 \<Longrightarrow> hexval (hexdigit n) = Some n"
  by (simp add: hexval_def word_le_nat_alt unat_hexdigit)

lemma hex_recombine:
  "4096 * (n div 4096) + 256 * (n div 256 mod 16) + 16 * (n div 16 mod 16) + n mod 16 = (n::nat)"
proof -
  define a where "a = n div 16"
  define b where "b = a div 16"
  define c where "c = b div 16"
  have n: "n = 16 * a + n mod 16" by (simp add: a_def)
  have a: "a = 16 * b + a mod 16" by (simp add: b_def)
  have b: "b = 16 * c + b mod 16" by (simp add: c_def)
  have b': "n div 256 = b" by (simp add: a_def b_def div_mult2_eq)
  have c': "n div 4096 = c" by (simp add: a_def b_def c_def div_mult2_eq)
  have a': "n div 16 = a" by (simp add: a_def)
  show ?thesis unfolding a' b' c' using n a b by linarith
qed

lemma unat_code_unit: "unat (c::code_unit) < 65536"
  using unsigned_less [of c, where 'a = nat] by simp

lemma hex4_escape:
  "hex4 (hexdigit (unat c div 4096)) (hexdigit (unat c div 256 mod 16))
        (hexdigit (unat c div 16 mod 16)) (hexdigit (unat c mod 16)) = Some c"
proof -
  have "unat c div 4096 < 16" using unat_code_unit [of c] by simp
  then show ?thesis
    by (simp add: hex4_def hexval_hexdigit hex_recombine)
qed

lemma string_body_escape:
  "string_body (UnicodeEscape c @ rest) = consume c (string_body rest)"
  by (simp add: UnicodeEscape_def hex4_escape)

lemma surrogate_plain:
  assumes "is_leading c \<or> is_trailing c"
  shows "c \<noteq> 0x22" "c \<noteq> 0x5C" "\<not> c < 0x20"
  using assms by (auto simp: is_leading_def is_trailing_def word_le_nat_alt word_less_nat_alt)

lemma string_body_quote_unit:
  "string_body (quote_unit c @ rest) = consume c (string_body rest)"
  by (simp add: quote_unit_def string_body_escape simple_escape_def)

lemma string_body_quote_units:
  "string_body (quote_units s @ 0x22 # rest) = Some (s, rest)"
proof (induction s rule: quote_units.induct)
  case 1
  show ?case by simp
next
  case (2 c)
  show ?case by (simp add: string_body_quote_unit consume_def)
next
  case (3 c d cs)
  show ?case
  proof (cases "is_leading c \<and> is_trailing d")
    case True
    then have q: "quote_units (c # d # cs) = c # d # quote_units cs"
      by simp
    have ih: "string_body (quote_units cs @ 0x22 # rest) = Some (cs, rest)"
      using 3(1) True by blast
    have d: "string_body (d # quote_units cs @ 0x22 # rest) = Some (d # cs, rest)"
      using True ih by (simp add: surrogate_plain consume_def)
    have "string_body (c # d # quote_units cs @ 0x22 # rest) = Some (c # d # cs, rest)"
      using True d by (simp add: surrogate_plain consume_def)
    then show ?thesis by (simp only: q append_Cons)
  next
    case False
    then have q: "quote_units (c # d # cs) = quote_unit c @ quote_units (d # cs)"
      by auto
    have ih: "string_body (quote_units (d # cs) @ 0x22 # rest) = Some (d # cs, rest)"
      using 3(2) False by blast
    show ?thesis
      by (simp only: q append_assoc string_body_quote_unit ih) (simp add: consume_def)
  qed
qed

lemma parse_string_quote: "parse_string (QuoteJSONString s @ rest) = Some (s, rest)"
  by (simp add: parse_string_def QuoteJSONString_def string_body_quote_units)

lemma parse_member_quote:
  "parse_member (QuoteJSONString k @ 0x3A # QuoteJSONString v @ rest) = Some ((k, v), rest)"
  by (simp add: parse_member_def parse_string_quote)

section \<open>Writing and reading an object\<close>

declare parse_members.simps [simp del]

lemma parse_members_json:
  "obj \<noteq> [] \<Longrightarrow> parse_members (json_members obj @ 0x7D # rest) = Some (obj, rest)"
proof (induction obj rule: json_members.induct)
  case 1
  then show ?case by simp
next
  case (2 k v)
  have "parse_members (QuoteJSONString k @ 0x3A # QuoteJSONString v @ 0x7D # rest)
          = Some ([(k, v)], rest)"
    by (subst parse_members.simps) (simp add: parse_member_quote)
  then show ?case by simp
next
  case (3 k v p ps)
  have ih: "parse_members (json_members (p # ps) @ 0x7D # rest) = Some (p # ps, rest)"
    using 3 by simp
  have "parse_members
          (QuoteJSONString k @ 0x3A # QuoteJSONString v @ 0x2C # json_members (p # ps) @ 0x7D # rest)
          = Some ((k, v) # p # ps, rest)"
    by (subst parse_members.simps) (simp add: parse_member_quote ih)
  then show ?case by simp
qed

lemma obj_put_fresh: "k \<notin> fst ` set obj \<Longrightarrow> obj_put obj k v = obj @ [(k, v)]"
  by (induction obj) auto

lemma fold_obj_put:
  "distinct (map fst ps) \<Longrightarrow> fst ` set acc \<inter> fst ` set ps = {} \<Longrightarrow>
     fold (\<lambda>(k, v) obj. obj_put obj k v) ps acc = acc @ ps"
proof (induction ps arbitrary: acc)
  case Nil
  show ?case by simp
next
  case (Cons p ps)
  obtain k v where p: "p = (k, v)" by (cases p)
  have fresh: "k \<notin> fst ` set acc" using Cons.prems(2) p by auto
  have "fold (\<lambda>(k, v) obj. obj_put obj k v) ps (acc @ [(k, v)]) = (acc @ [(k, v)]) @ ps"
    using Cons.prems p by (intro Cons.IH) auto
  then show ?case by (simp add: p obj_put_fresh [OF fresh])
qed

lemma json_members_head: "obj \<noteq> [] \<Longrightarrow> \<exists>t. json_members obj = 0x22 # t"
  by (induction obj rule: json_members.induct) (auto simp: QuoteJSONString_def)

lemma parse_stringify: "obj_wf obj \<Longrightarrow> parse_object (JSON_stringify obj) = Some obj"
proof (cases "obj = []")
  case True
  then show ?thesis by (simp add: parse_object_def JSON_stringify_def)
next
  case False
  assume wf: "obj_wf obj"
  from False obtain t where t: "json_members obj = 0x22 # t"
    using json_members_head by blast
  have m: "parse_members (0x22 # t @ [0x7D]) = Some (obj, [])"
    using parse_members_json [OF False, of "[]"] t by simp
  have f: "fold (\<lambda>(k, v) obj. obj_put obj k v) obj [] = obj"
    using fold_obj_put [of obj "[]"] wf by (simp add: obj_wf_def)
  show ?thesis
    by (simp add: parse_object_def JSON_stringify_def t m f)
qed

lemma card_type_of_name: "card_type_of (card_type_name t) = Some t"
  by (cases t) (simp_all add: card_type_of_def card_type_name_def js_def)

text \<open>Every value of the card type is the reading of an object.\<close>

lemma asCard_cardObject: "asCard (cardObject c) = Some c"
  by (cases "workNumber c")
     (simp_all add: asCard_def cardObject_def obj_get_def card_type_of_name js_def)

lemma obj_wf_cardObject: "obj_wf (cardObject c)"
  by (cases "workNumber c") (simp_all add: obj_wf_def cardObject_def js_def)


section \<open>Facts about the handlers\<close>

lemma writeNfcTag_outcome: "outcome_of (writeNfcTag e s c) = Fulfilled"
  by (simp add: writeNfcTag_def outcome_of_def split: prod.splits)

lemma write_try_no_cancel: "NfcCancelTechnologyRequest \<notin> set (fst (write_try e c))"
  by (simp add: write_try_def Let_def split: sum.splits option.splits)

lemma write_try_no_host: "filter is_host_event (fst (write_try e c)) = []"
  by (simp add: write_try_def Let_def split: sum.splits option.splits)

lemma writeNfcTag_events:
  "events_of (writeNfcTag e s c) =
     fst (write_try e c)
     @ (case snd (write_try e c) of
          None \<Rightarrow> []
        | Some error \<Rightarrow>
            [ConsoleError ''Error writing NFC tag:'' error,
             Alert ''Error'' ''Failed to write the NFC tag.''])
     @ [NfcCancelTechnologyRequest]"
  by (simp add: writeNfcTag_def events_of_def split: prod.splits)

lemma writeNfcTag_state: "state_of (writeNfcTag e s c) = s\<lparr>session := False\<rparr>"
  by (simp add: writeNfcTag_def state_of_def split: prod.splits)

lemma writeNfcTag_no_host: "filter is_host_event (events_of (writeNfcTag e s c)) = []"
  by (simp add: writeNfcTag_events write_try_no_host split: option.splits)

lemma writeNfcTag_alerts:
  "filter is_alert (events_of (writeNfcTag e s c)) =
     (case ndef_encodeMessage e (ndefMessage c) of
        Inl error \<Rightarrow> [Alert ''Error'' ''Failed to write the NFC tag.'']
      | Inr None \<Rightarrow> [Alert ''Error'' ''Failed to encode the NDEF message.'']
      | Inr (Some bytes) \<Rightarrow>
          (case nfc_transceive e bytes of
             Inl error \<Rightarrow> [Alert ''Error'' ''Failed to write the NFC tag.'']
           | Inr u \<Rightarrow>
               [Alert ''Success'' ''Card information has been written to the NFC tag.'']))"
  by (simp add: writeNfcTag_events write_try_def Let_def split: sum.splits option.splits)

lemma handleShare_selected:
  "selectedCard s = Some c \<Longrightarrow>
     handleShare e s =
       (s\<lparr>session := False\<rparr>, events_of (writeNfcTag e s c) @ [OnCardSelected c, OnClose],
        Fulfilled)"
  by (simp add: handleShare_def writeNfcTag_def events_of_def split: prod.splits)

lemma handleShare_selected_kept: "selectedCard (state_of (handleShare e s)) = selectedCard s"
  by (cases "selectedCard s")
     (simp_all add: handleShare_def writeNfcTag_def state_of_def split: prod.splits)

lemma stopNFC_selected: "selectedCard (state_of (stopNFC s)) = selectedCard s"
  by (simp add: stopNFC_def state_of_def)

lemma stopNFC_no_write: "filter is_write_event (events_of (stopNFC s)) = []"
  by (simp add: stopNFC_def events_of_def)

lemma startNFC_selected: "selectedCard (state_of (startNFC e s)) = selectedCard s"
  by (simp add: startNFC_def state_of_def split: sum.splits option.splits)

lemma startNFC_no_write: "filter is_write_event (events_of (startNFC e s)) = []"
  by (simp add: startNFC_def events_of_def split: sum.splits option.splits)

lemma fetchCards_selected: "selectedCard (state_of (fetchCards e s)) = selectedCard s"
  by (simp add: fetchCards_def state_of_def Let_def split: sum.splits option.splits)

lemma fetchCards_no_write: "filter is_write_event (events_of (fetchCards e s)) = []"
  by (simp add: fetchCards_def events_of_def Let_def split: sum.splits option.splits)

lemma obj_get_put: "obj_get (obj_put obj k v) k' = (if k' = k then Some v else obj_get obj k')"
  by (induction obj) (auto simp: obj_get_def)

lemma obj_get_cardOfDoc: "obj_get (cardOfDoc d) (js ''id'') = Some (doc_id d)"
  by (simp add: cardOfDoc_def obj_get_put)

lemma obj_wf_ann: "obj_wf ann"
  by (simp add: obj_wf_def ann_def js_def)

text \<open>
  The three ways a write attempt of Ann's card can go: the write succeeds, the encoder answers
  nothing, the transmission rejects.
\<close>

lemma write_attempts_of_ann:
  "events_of (writeNfcTag env_ok s ann)
     = [NdefEncodeMessage (ndefMessage ann), NfcTransceive [0xD1, 0x01, 0x00],
        Alert ''Success'' ''Card information has been written to the NFC tag.'',
        NfcCancelTechnologyRequest]"
  "events_of (writeNfcTag env_encode_fails s ann)
     = [NdefEncodeMessage (ndefMessage ann),
        Alert ''Error'' ''Failed to encode the NDEF message.'',
        NfcCancelTechnologyRequest]"
  "events_of (writeNfcTag env_write_fails s ann)
     = [NdefEncodeMessage (ndefMessage ann), NfcTransceive [0xD1, 0x01, 0x00],
        ConsoleError ''Error writing NFC tag:'' (Exn ''transceive fail''),
        Alert ''Error'' ''Failed to write the NFC tag.'',
        NfcCancelTechnologyRequest]"
  by (simp_all add: writeNfcTag_events write_try_def env_ok_def env_encode_fails_def
                    env_write_fails_def)

section \<open>The write attempt releases the session\<close>

text \<open>
  C1. Every write attempt (\<open>writeNfcTag\<close> with a selected card), whatever the encoder and the
  transmission answer, calls \<^verbatim>\<open>cancelTechnologyRequest\<close>: the call is made once, it is the
  last call of the attempt, the controller is idle afterwards and the promise of the attempt
  fulfils. The environment \<open>e\<close> ranges over the success path, the path where the encoder
  answers nothing and the paths where the encoder or the transmission throws.
\<close>

theorem writeNfcTag_releases_session:
  "last (events_of (writeNfcTag e s c)) = NfcCancelTechnologyRequest
   \<and> count_list (events_of (writeNfcTag e s c)) NfcCancelTechnologyRequest = 1
   \<and> idle (state_of (writeNfcTag e s c))
   \<and> outcome_of (writeNfcTag e s c) = Fulfilled"
proof -
  have "count_list (fst (write_try e c)) NfcCancelTechnologyRequest = 0"
    using write_try_no_cancel by (simp add: count_list_0_iff)
  then have "count_list (events_of (writeNfcTag e s c)) NfcCancelTechnologyRequest = 1"
    by (simp add: writeNfcTag_events split: option.splits)
  moreover have "last (events_of (writeNfcTag e s c)) = NfcCancelTechnologyRequest"
    by (simp add: writeNfcTag_events)
  moreover have "idle (state_of (writeNfcTag e s c))"
    by (simp add: writeNfcTag_state idle_def)
  ultimately show ?thesis
    using writeNfcTag_outcome by simp
qed

text \<open>The release on an error path: the transmission rejects while a session is held.\<close>

theorem writeNfcTag_releases_session_witness:
  "\<not> idle (initial_state\<lparr>session := True\<rparr>)
   \<and> Alert ''Error'' ''Failed to write the NFC tag.''
       \<in> set (events_of (writeNfcTag env_write_fails (initial_state\<lparr>session := True\<rparr>) ann))
   \<and> last (events_of (writeNfcTag env_write_fails (initial_state\<lparr>session := True\<rparr>) ann))
       = NfcCancelTechnologyRequest
   \<and> idle (state_of (writeNfcTag env_write_fails (initial_state\<lparr>session := True\<rparr>) ann))"
proof -
  have a: "Alert ''Error'' ''Failed to write the NFC tag.''
       \<in> set (events_of (writeNfcTag env_write_fails (initial_state\<lparr>session := True\<rparr>) ann))"
    by (simp add: write_attempts_of_ann)
  have b: "\<not> idle (initial_state\<lparr>session := True\<rparr>)"
    by (simp add: idle_def)
  show ?thesis
    using a b
      writeNfcTag_releases_session [of env_write_fails "initial_state\<lparr>session := True\<rparr>" ann]
    by blast
qed

section \<open>The payload is read back as the card\<close>

text \<open>
  C2. For every card, in whatever order the object lists its properties, the text that the
  write path produces with \<^verbatim>\<open>JSON.stringify\<close> is read back by the inverse parser as the same
  card. The witness is the card of the spec: id 1, Ann Lee, Work, phone 555-1.
\<close>

theorem card_json_roundtrip:
  "obj_wf obj \<Longrightarrow> asCard obj = Some c \<Longrightarrow> decodeCard (JSON_stringify obj) = Some c"
  by (simp add: decodeCard_def parse_stringify)

theorem card_json_roundtrip_witness:
  "obj_wf ann \<and> asCard ann = Some ann_card \<and> decodeCard (JSON_stringify ann) = Some ann_card"
proof -
  have card: "asCard ann = Some ann_card"
    by (simp add: asCard_def ann_def ann_card_def obj_get_def card_type_of_def js_def)
  show ?thesis
    using obj_wf_ann card card_json_roundtrip [OF obj_wf_ann card] by simp
qed

section \<open>Sharing without a selection\<close>

text \<open>
  C3. When \<open>handleShare\<close> runs while no card is selected, the only thing that happens is the
  alert that asks for a selection: no call into the radio library (no encoding, no
  transmission, no session call), no callback of the host, and the state is unchanged.
\<close>

theorem handleShare_without_selection:
  "selectedCard s = None \<Longrightarrow>
     handleShare e s = (s, [Alert ''Error'' ''Please select a card to share.''], Fulfilled)
     \<and> filter is_session_event (events_of (handleShare e s)) = []
     \<and> filter is_host_event (events_of (handleShare e s)) = []"
  by (simp add: handleShare_def events_of_def)

theorem handleShare_without_selection_witness:
  "selectedCard initial_state = None
   \<and> handleShare env_ok initial_state
       = (initial_state, [Alert ''Error'' ''Please select a card to share.''], Fulfilled)
   \<and> filter is_session_event (events_of (handleShare env_ok initial_state)) = []
   \<and> filter is_host_event (events_of (handleShare env_ok initial_state)) = []"
proof -
  have h: "selectedCard initial_state = None"
    by (simp add: initial_state_def)
  show ?thesis
    using h handleShare_without_selection [OF h, of env_ok] by blast
qed

section \<open>What the host is told after a write attempt\<close>

text \<open>
  C4 as stated does not hold: on a failed write the modal is closed all the same. With Ann's
  card selected and a transmission that rejects, \<open>handleShare\<close> shows the alert of the failed
  write and then calls \<^verbatim>\<open>onClose\<close>.
\<close>

theorem handleShare_failed_write_closes:
  "Alert ''Error'' ''Failed to write the NFC tag.''
     \<in> set (events_of (handleShare env_write_fails (initial_state\<lparr>selectedCard := Some ann\<rparr>)))
   \<and> OnClose
     \<in> set (events_of (handleShare env_write_fails (initial_state\<lparr>selectedCard := Some ann\<rparr>)))"
  by (simp add: handleShare_def writeNfcTag_def write_try_def events_of_def
                env_write_fails_def env_ok_def)

text \<open>
  C4 amended. After every write attempt, successful or failed, \<open>handleShare\<close> notifies the
  host with the selected card and signals the screen to close: \<^verbatim>\<open>onCardSelected\<close> and
  \<^verbatim>\<open>onClose\<close> are called once each, in this order, right after the session release. The
  attempt is reported by exactly one alert: the alert of the failed encoding when the encoder
  answers nothing, the alert of the failed write when the encoder or the transmission throws,
  the alert of success otherwise. A failed write is not fatal: the promise of \<open>handleShare\<close>
  fulfils.
\<close>

theorem handleShare_always_notifies_and_closes:
  "selectedCard s = Some c \<Longrightarrow>
     filter is_host_event (events_of (handleShare e s)) = [OnCardSelected c, OnClose]
     \<and> (\<exists>written. events_of (handleShare e s)
           = written @ [NfcCancelTechnologyRequest, OnCardSelected c, OnClose])
     \<and> outcome_of (handleShare e s) = Fulfilled
     \<and> filter is_alert (events_of (handleShare e s)) =
         (case ndef_encodeMessage e (ndefMessage c) of
            Inl error \<Rightarrow> [Alert ''Error'' ''Failed to write the NFC tag.'']
          | Inr None \<Rightarrow> [Alert ''Error'' ''Failed to encode the NDEF message.'']
          | Inr (Some bytes) \<Rightarrow>
              (case nfc_transceive e bytes of
                 Inl error \<Rightarrow> [Alert ''Error'' ''Failed to write the NFC tag.'']
               | Inr u \<Rightarrow>
                   [Alert ''Success'' ''Card information has been written to the NFC tag.'']))"
proof -
  assume sel: "selectedCard s = Some c"
  have ev: "events_of (handleShare e s)
              = events_of (writeNfcTag e s c) @ [OnCardSelected c, OnClose]"
    by (simp add: handleShare_selected [OF sel] events_of_def)
  have host: "filter is_host_event (events_of (handleShare e s)) = [OnCardSelected c, OnClose]"
    by (simp add: ev writeNfcTag_no_host)
  have order: "\<exists>written. events_of (handleShare e s)
           = written @ [NfcCancelTechnologyRequest, OnCardSelected c, OnClose]"
    by (simp add: ev writeNfcTag_events)
  have settled: "outcome_of (handleShare e s) = Fulfilled"
    by (simp add: handleShare_selected [OF sel] outcome_of_def)
  have "filter is_alert (events_of (handleShare e s))
          = filter is_alert (events_of (writeNfcTag e s c))"
    by (simp add: ev)
  then have alerts: "filter is_alert (events_of (handleShare e s)) =
         (case ndef_encodeMessage e (ndefMessage c) of
            Inl error \<Rightarrow> [Alert ''Error'' ''Failed to write the NFC tag.'']
          | Inr None \<Rightarrow> [Alert ''Error'' ''Failed to encode the NDEF message.'']
          | Inr (Some bytes) \<Rightarrow>
              (case nfc_transceive e bytes of
                 Inl error \<Rightarrow> [Alert ''Error'' ''Failed to write the NFC tag.'']
               | Inr u \<Rightarrow>
                   [Alert ''Success'' ''Card information has been written to the NFC tag.'']))"
    by (simp only: writeNfcTag_alerts)
  from host order settled alerts show ?thesis
    by (intro conjI)
qed

text \<open>
  The two failed attempts with Ann's card selected: the encoder answers nothing, the
  transmission rejects. Each shows its alert, and the host is notified and told to close.
\<close>

theorem handleShare_always_notifies_and_closes_witness:
  "selectedCard (initial_state\<lparr>selectedCard := Some ann\<rparr>) = Some ann
   \<and> filter is_alert
       (events_of (handleShare env_encode_fails (initial_state\<lparr>selectedCard := Some ann\<rparr>)))
       = [Alert ''Error'' ''Failed to encode the NDEF message.'']
   \<and> filter is_host_event
       (events_of (handleShare env_encode_fails (initial_state\<lparr>selectedCard := Some ann\<rparr>)))
       = [OnCardSelected ann, OnClose]
   \<and> outcome_of (handleShare env_encode_fails (initial_state\<lparr>selectedCard := Some ann\<rparr>))
       = Fulfilled
   \<and> filter is_alert
       (events_of (handleShare env_write_fails (initial_state\<lparr>selectedCard := Some ann\<rparr>)))
       = [Alert ''Error'' ''Failed to write the NFC tag.'']
   \<and> filter is_host_event
       (events_of (handleShare env_write_fails (initial_state\<lparr>selectedCard := Some ann\<rparr>)))
       = [OnCardSelected ann, OnClose]
   \<and> outcome_of (handleShare env_write_fails (initial_state\<lparr>selectedCard := Some ann\<rparr>))
       = Fulfilled"
proof -
  have h: "selectedCard (initial_state\<lparr>selectedCard := Some ann\<rparr>) = Some ann"
    by simp
  have enc: "ndef_encodeMessage env_encode_fails (ndefMessage ann) = Inr None"
    by (simp add: env_encode_fails_def)
  have wr: "ndef_encodeMessage env_write_fails (ndefMessage ann) = Inr (Some [0xD1, 0x01, 0x00])"
    "nfc_transceive env_write_fails [0xD1, 0x01, 0x00] = Inl (Exn ''transceive fail'')"
    by (simp_all add: env_write_fails_def env_ok_def)
  show ?thesis
    using h handleShare_always_notifies_and_closes [OF h, of env_encode_fails]
      handleShare_always_notifies_and_closes [OF h, of env_write_fails]
    by (simp add: enc wr)
qed

section \<open>Fetching without a signed-in user\<close>

text \<open>
  C5 as stated does not hold: with nobody signed in, \<open>fetchCards\<close> surfaces no error. At
  mount it shows no alert and its promise fulfils.
\<close>

theorem fetchCards_no_user_silent:
  "currentUser env_ok = None
   \<and> filter is_alert (events_of (fetchCards env_ok initial_state)) = []
   \<and> outcome_of (fetchCards env_ok initial_state) = Fulfilled"
  by (simp add: fetchCards_def env_ok_def events_of_def outcome_of_def)

text \<open>
  C5 amended. When \<open>fetchCards\<close> runs with no signed-in user it does nothing: no read of the
  document store, no alert, no error (the promise fulfils), and the card list is left as it
  is, which at mount is empty.
\<close>

theorem fetchCards_no_user:
  "currentUser e = None \<Longrightarrow>
     fetchCards e s = (s, [], Fulfilled) \<and> cards (state_of (fetchCards e initial_state)) = []"
  by (simp add: fetchCards_def state_of_def initial_state_def)

theorem fetchCards_no_user_witness:
  "currentUser env_ok = None
   \<and> fetchCards env_ok initial_state = (initial_state, [], Fulfilled)
   \<and> cards (state_of (fetchCards env_ok initial_state)) = []"
proof -
  have h: "currentUser env_ok = None"
    by (simp add: env_ok_def)
  show ?thesis
    using h fetchCards_no_user [OF h, of initial_state] by blast
qed

section \<open>One text record with the whole card\<close>

text \<open>
  C6. For every selected card the message built by the write path is one text record; its
  content is the JSON text of the whole card object, from which every property is read back;
  the message is handed to the encoder once, and the bytes the encoder answers are
  transmitted in one call (no transmission when the encoder answers nothing or throws).
\<close>

theorem write_payload_one_text_record:
  "obj_wf c \<Longrightarrow>
     ndefMessage c = [textRecord (JSON_stringify c)]
     \<and> parse_object (JSON_stringify c) = Some c
     \<and> filter is_write_event (events_of (writeNfcTag e s c))
         = (case ndef_encodeMessage e (ndefMessage c) of
              Inr (Some bytes) \<Rightarrow> [NdefEncodeMessage (ndefMessage c), NfcTransceive bytes]
            | _ \<Rightarrow> [NdefEncodeMessage (ndefMessage c)])"
proof -
  assume wf: "obj_wf c"
  have "filter is_write_event (events_of (writeNfcTag e s c))
         = (case ndef_encodeMessage e (ndefMessage c) of
              Inr (Some bytes) \<Rightarrow> [NdefEncodeMessage (ndefMessage c), NfcTransceive bytes]
            | _ \<Rightarrow> [NdefEncodeMessage (ndefMessage c)])"
    by (simp add: writeNfcTag_events write_try_def Let_def split: sum.splits option.splits)
  then show ?thesis
    using parse_stringify [OF wf] by (simp add: ndefMessage_def)
qed

theorem write_payload_one_text_record_witness:
  "obj_wf ann
   \<and> ndefMessage ann = [textRecord (JSON_stringify ann)]
   \<and> parse_object (JSON_stringify ann) = Some ann
   \<and> filter is_write_event
       (events_of (writeNfcTag env_ok (initial_state\<lparr>selectedCard := Some ann\<rparr>) ann))
       = [NdefEncodeMessage [textRecord (JSON_stringify ann)], NfcTransceive [0xD1, 0x01, 0x00]]"
proof -
  have enc: "ndef_encodeMessage env_ok (ndefMessage ann) = Inr (Some [0xD1, 0x01, 0x00])"
    by (simp add: env_ok_def)
  show ?thesis
    using obj_wf_ann
      write_payload_one_text_record
        [OF obj_wf_ann, of env_ok "initial_state\<lparr>selectedCard := Some ann\<rparr>"]
    by (simp add: enc)
qed

section \<open>Cancelling\<close>

text \<open>
  C7. \<open>stopNFC\<close> can run in every state, held session or not: its promise fulfils, the
  controller is idle afterwards, cards and selection are untouched, and a second run in a row
  does what the first did and leaves the state of the first. Hiding the modal runs exactly
  \<open>stopNFC\<close>.
\<close>

theorem stopNFC_safe_idempotent:
  "outcome_of (stopNFC s) = Fulfilled
   \<and> idle (state_of (stopNFC s))
   \<and> cards (state_of (stopNFC s)) = cards s
   \<and> selectedCard (state_of (stopNFC s)) = selectedCard s
   \<and> events_of (stopNFC s) = [NfcCancelTechnologyRequest]
   \<and> stopNFC (state_of (stopNFC s)) = stopNFC s
   \<and> visibleEffect e s False = stopNFC s"
  by (simp add: stopNFC_def state_of_def events_of_def outcome_of_def idle_def visibleEffect_def)

text \<open>The run at mount, when the controller is idle and no session is held.\<close>

theorem stopNFC_safe_idempotent_witness:
  "idle initial_state
   \<and> outcome_of (stopNFC initial_state) = Fulfilled
   \<and> state_of (stopNFC initial_state) = initial_state
   \<and> stopNFC (state_of (stopNFC initial_state)) = stopNFC initial_state"
proof -
  have i: "idle initial_state"
    by (simp add: idle_def initial_state_def)
  have s: "state_of (stopNFC initial_state) = initial_state"
    by (simp add: stopNFC_def state_of_def initial_state_def)
  show ?thesis
    using i s stopNFC_safe_idempotent [of initial_state env_ok] by blast
qed

section \<open>The selection\<close>

text \<open>
  C8 as stated does not hold: closing the modal does not clear the selection. Ann's card is
  chosen and shared (which calls \<^verbatim>\<open>onClose\<close>), the host hides the modal and shows it again:
  the card is still selected.
\<close>

theorem selection_survives_close:
  "selectedCard
     (state_of (step env_ok
       (state_of (step env_ok
         (state_of (step env_ok
           (state_of (step env_ok initial_state (PressCard ann)))
           PressShare))
         (VisibleEffect False)))
       (VisibleEffect True)))
   = Some ann"
  by (simp add: step_def handleCardSelection_def handleShare_def writeNfcTag_def
                visibleEffect_def stopNFC_def startNFC_def state_of_def env_ok_def
                initial_state_def
           split: prod.splits)

text \<open>
  C8 amended. The selection is empty at mount and is changed only by choosing a card: the
  fetch, showing and hiding the modal, sharing and cancelling leave it as it is, so a modal
  reopened while the component stays mounted still has the card chosen last.
\<close>

theorem selection_changed_only_by_choice:
  "selectedCard (state_of (step e s a))
     = (case a of PressCard item \<Rightarrow> Some item | _ \<Rightarrow> selectedCard s)
   \<and> selectedCard initial_state = None"
proof (cases a)
  case FetchEffect
  then show ?thesis
    by (simp add: step_def fetchCards_selected initial_state_def)
next
  case (VisibleEffect visible)
  then show ?thesis
    by (simp add: step_def visibleEffect_def startNFC_selected stopNFC_selected
                  initial_state_def)
next
  case (PressCard item)
  then show ?thesis
    by (simp add: step_def handleCardSelection_def state_of_def initial_state_def)
next
  case PressShare
  then show ?thesis
    by (simp add: step_def handleShare_selected_kept initial_state_def)
next
  case PressCancel
  then show ?thesis
    by (simp add: step_def state_of_def initial_state_def)
qed

theorem selection_changed_only_by_choice_witness:
  "selectedCard (state_of (step env_ok (initial_state\<lparr>selectedCard := Some ann\<rparr>)
                                   (VisibleEffect False)))
     = Some ann
   \<and> selectedCard (state_of (step env_ok initial_state (PressCard ann))) = Some ann"
  using selection_changed_only_by_choice
          [of env_ok "initial_state\<lparr>selectedCard := Some ann\<rparr>" "VisibleEffect False"]
        selection_changed_only_by_choice [of env_ok initial_state "PressCard ann"]
  by simp

section \<open>Choosing a card\<close>

text \<open>
  C9. \<open>handleCardSelection\<close> sets the selection and does nothing else: it makes no call (no
  session call, no write, no callback of the host) and leaves the card list and the session
  as they are. Among everything that can happen to the component, only the share button
  pressed with a card selected starts the write path.
\<close>

theorem handleCardSelection_only_selects:
  "handleCardSelection s item = (s\<lparr>selectedCard := Some item\<rparr>, [])
   \<and> cards (fst (handleCardSelection s item)) = cards s
   \<and> session (fst (handleCardSelection s item)) = session s
   \<and> (filter is_write_event (events_of (step e s a)) \<noteq> [] \<longrightarrow>
        a = PressShare \<and> selectedCard s \<noteq> None)"
proof -
  have "filter is_write_event (events_of (step e s a)) = []"
    if "a \<noteq> PressShare \<or> selectedCard s = None"
  proof (cases a)
    case FetchEffect
    then show ?thesis by (simp add: step_def fetchCards_no_write)
  next
    case (VisibleEffect visible)
    then show ?thesis
      by (simp add: step_def visibleEffect_def startNFC_no_write stopNFC_no_write)
  next
    case (PressCard c)
    then show ?thesis by (simp add: step_def handleCardSelection_def events_of_def)
  next
    case PressShare
    with that have "selectedCard s = None" by simp
    with PressShare show ?thesis by (simp add: step_def handleShare_def events_of_def)
  next
    case PressCancel
    then show ?thesis by (simp add: step_def events_of_def)
  qed
  then have "a = PressShare \<and> selectedCard s \<noteq> None"
    if "filter is_write_event (events_of (step e s a)) \<noteq> []"
    using that by blast
  then show ?thesis
    by (simp add: handleCardSelection_def)
qed

theorem handleCardSelection_only_selects_witness:
  "filter is_write_event
     (events_of (step env_ok (initial_state\<lparr>selectedCard := Some ann\<rparr>) PressShare)) \<noteq> []
   \<and> selectedCard (initial_state\<lparr>selectedCard := Some ann\<rparr>) \<noteq> None
   \<and> snd (handleCardSelection (initial_state\<lparr>selectedCard := Some ann\<rparr>) ann) = []"
proof -
  have w: "filter is_write_event
     (events_of (step env_ok (initial_state\<lparr>selectedCard := Some ann\<rparr>) PressShare)) \<noteq> []"
    by (simp add: step_def handleShare_def writeNfcTag_def write_try_def events_of_def
                  env_ok_def Let_def)
  show ?thesis
    using w handleCardSelection_only_selects
              [of "initial_state\<lparr>selectedCard := Some ann\<rparr>" ann env_ok PressShare]
    by simp
qed

section \<open>The id of a fetched card\<close>

text \<open>
  C10. After a fetch that succeeds, the card list has one card for each document, in the
  order of the documents, and the \<^verbatim>\<open>id\<close> of each card is the key of its document, also when
  the data of the document has an \<^verbatim>\<open>id\<close> field of its own. So documents with distinct keys
  give cards with distinct ids.
\<close>

theorem fetched_card_id_is_doc_id:
  "currentUser e = Some uid \<Longrightarrow> getDocs e [js ''wallets'', uid, js ''cards''] = Inr docs \<Longrightarrow>
     map (\<lambda>c. obj_get c (js ''id'')) (cards (state_of (fetchCards e s)))
       = map (\<lambda>d. Some (doc_id d)) docs
     \<and> (distinct (map doc_id docs) \<longrightarrow>
          distinct (map (\<lambda>c. obj_get c (js ''id'')) (cards (state_of (fetchCards e s)))))"
proof -
  assume u: "currentUser e = Some uid"
    and d: "getDocs e [js ''wallets'', uid, js ''cards''] = Inr docs"
  have c: "cards (state_of (fetchCards e s)) = map cardOfDoc docs"
    using u d by (simp add: fetchCards_def state_of_def)
  have m: "map (\<lambda>c. obj_get c (js ''id'')) (cards (state_of (fetchCards e s)))
       = map (\<lambda>d. Some (doc_id d)) docs"
    by (simp add: c obj_get_cardOfDoc)
  have "distinct (map (\<lambda>d. Some (doc_id d)) docs)" if "distinct (map doc_id docs)"
    using that by (simp add: distinct_map inj_on_def)
  with m show ?thesis by simp
qed

text \<open>
  Two documents with keys \<^verbatim>\<open>k1\<close> and \<^verbatim>\<open>k2\<close>; the data of the first has the \<^verbatim>\<open>id\<close> field
  \<^verbatim>\<open>1\<close>, which the key replaces.
\<close>

theorem fetched_card_id_is_doc_id_witness:
  "currentUser env_user = Some (js ''u1'')
   \<and> getDocs env_user [js ''wallets'', js ''u1'', js ''cards''] = Inr [ann_doc, bob_doc]
   \<and> obj_get (doc_data ann_doc) (js ''id'') = Some (js ''1'')
   \<and> distinct (map doc_id [ann_doc, bob_doc])
   \<and> map (\<lambda>c. obj_get c (js ''id'')) (cards (state_of (fetchCards env_user initial_state)))
       = [Some (js ''k1''), Some (js ''k2'')]
   \<and> distinct (map (\<lambda>c. obj_get c (js ''id''))
                 (cards (state_of (fetchCards env_user initial_state))))"
proof -
  have u: "currentUser env_user = Some (js ''u1'')"
    by (simp add: env_user_def env_ok_def)
  have d: "getDocs env_user [js ''wallets'', js ''u1'', js ''cards''] = Inr [ann_doc, bob_doc]"
    by (simp add: env_user_def env_ok_def)
  have i: "obj_get (doc_data ann_doc) (js ''id'') = Some (js ''1'')"
    by (simp add: ann_doc_def ann_def obj_get_def)
  have k: "distinct (map doc_id [ann_doc, bob_doc])"
    by (simp add: ann_doc_def bob_doc_def js_def)
  show ?thesis
    using u d i k fetched_card_id_is_doc_id [OF u d, of initial_state]
    by (simp add: ann_doc_def bob_doc_def)
qed

end
